theory Spec2Isabelle
  imports Complex_Main "HOL-Library.Log_Nat"
begin

section \<open>JavaScript values used by the engine\<close>

subsection \<open>Strings\<close>

text \<open>
  Strings are \<^typ>\<open>string\<close>. \<open>String.prototype.includes\<close> is the
  contiguous-substring test; \<open>String.prototype.toLowerCase\<close> is modelled on the
  ASCII letters, which is all the shipped catalog and the error messages of the engines contain.
\<close>

fun startsWith :: "string \<Rightarrow> string \<Rightarrow> bool" where
  "startsWith s [] = True"
| "startsWith [] (c # cs) = False"
| "startsWith (x # xs) (c # cs) = (x = c \<and> startsWith xs cs)"

fun str_includes :: "string \<Rightarrow> string \<Rightarrow> bool" where
  "str_includes [] sub = (sub = [])"
| "str_includes (x # xs) sub = (startsWith (x # xs) sub \<or> str_includes xs sub)"

definition toLowerChar :: "char \<Rightarrow> char" where
  "toLowerChar c =
     (let n = (of_char c :: nat) in if 65 \<le> n \<and> n \<le> 90 then char_of (n + 32) else c)"

definition toLowerCase :: "string \<Rightarrow> string" where
  "toLowerCase s = map toLowerChar s"

subsection \<open>Numbers\<close>

text \<open>
  A JavaScript number is an IEEE 754 binary64 value. The confidences are finite and positive,
  so a number is modelled as the rational it denotes, and \<open>+\<close> as the exact sum rounded
  to the nearest value with a 53-bit significand, ties to even. \<open>binade x\<close> is the
  exponent \<open>e\<close> with \<open>2^e \<le> x < 2^(e+1)\<close>. Overflow and subnormal numbers are
  out of reach of the sums computed here and are not modelled. A decimal literal of the source
  such as \<open>0.3\<close> denotes \<open>round_double (3 / 10)\<close>.
\<close>

definition pow2 :: "int \<Rightarrow> rat" where
  "pow2 k = (if 0 \<le> k then 2 ^ nat k else 1 / 2 ^ nat (- k))"

definition binade :: "rat \<Rightarrow> int" where
  "binade x = (if 1 \<le> x then bitlen \<lfloor>x\<rfloor> - 1 else - bitlen (\<lceil>1 / x\<rceil> - 1))"

definition round_double :: "rat \<Rightarrow> rat" where
  "round_double x =
     (if x \<le> 0 then 0 else
      let u = pow2 (binade x - 52);
          q = \<lfloor>x / u\<rfloor>;
          r = x / u - of_int q
      in if r < 1 / 2 then of_int q * u
         else if 1 / 2 < r then of_int (q + 1) * u
         else if even q then of_int q * u else of_int (q + 1) * u)"

definition js_add :: "rat \<Rightarrow> rat \<Rightarrow> rat" where
  "js_add a b = round_double (a + b)"

subsection \<open>Exceptions\<close>

text \<open>
  A JavaScript call either returns or throws. \<open>TypeError\<close> is what reading a property
  of \<open>undefined\<close> throws; \<open>Thrown s\<close> is any other thrown value.
\<close>

datatype js_exception = TypeError | Thrown string

section \<open>Data model (rules/types.ts)\<close>

text \<open>
  An error-like value. The fields are optional: \<open>None\<close> is a field that is missing
  (\<open>undefined\<close>) at run time.
\<close>

record js_error =
  name :: "string option"
  message :: "string option"
  stack :: "string option"

datatype category = Javascript | Nodejs | React | Network | Async | Json

datatype severity = Low | Medium | High | Critical

datatype environment = Browser | Node | Deno | Bun

text \<open>
  \<open>ErrorRule\<close>. The predicate \<open>match\<close> is a JavaScript closure: it returns a
  boolean or throws. The display-only fields (\<open>explanation\<close>, \<open>fixes\<close>,
  \<open>examples\<close>, \<open>relatedErrors\<close>, \<open>resources\<close>) are never read by the
  engine and are left out. The fields \<open>id\<close> and \<open>name\<close> are called
  \<open>rule_id\<close> and \<open>rule_name\<close>.
\<close>

record ErrorRule =
  rule_id :: string
  rule_name :: string
  category :: category
  match :: "js_error \<Rightarrow> js_exception + bool"
  title :: string
  severity :: "severity option"
  frameworks :: "string list option"

record ErrorContext =
  framework :: "string option"
  environment :: "environment option"
  code :: "string option"
  line :: "nat option"
  column :: "nat option"

record RuleMatch =
  rule :: ErrorRule
  error :: js_error
  confidence :: rat

section \<open>The rule catalog (rules/core-rules.ts)\<close>

text \<open>
  Every predicate of the catalog starts by calling \<open>error.message.includes\<close>, which
  throws a \<open>TypeError\<close> when \<open>error.message\<close> is \<open>undefined\<close>; when the
  message is a string nothing in a predicate can throw.
\<close>

definition on_message :: "js_error \<Rightarrow> (string \<Rightarrow> bool) \<Rightarrow> js_exception + bool" where
  "on_message e p = (case message e of None \<Rightarrow> Inl TypeError | Some m \<Rightarrow> Inr (p m))"

definition undefined_property :: ErrorRule where
  "undefined_property = \<lparr>
     rule_id = ''undefined-property'',
     rule_name = ''Undefined Property Access'',
     category = Javascript,
     match = (\<lambda>e. on_message e (\<lambda>m.
       str_includes m ''Cannot read properties of undefined'' \<or>
       str_includes m ''Cannot access property'' \<and> str_includes m ''undefined'')),
     title = ''Trying to use something that doesn't exist'',
     severity = Some High,
     frameworks = None \<rparr>"

definition null_property :: ErrorRule where
  "null_property = \<lparr>
     rule_id = ''null-property'',
     rule_name = ''Null Property Access'',
     category = Javascript,
     match = (\<lambda>e. on_message e (\<lambda>m.
       str_includes m ''Cannot read properties of null'' \<or>
       str_includes m ''Cannot access property'' \<and> str_includes m ''null'')),
     title = ''Trying to use something that is null'',
     severity = Some High,
     frameworks = None \<rparr>"

definition map_not_function :: ErrorRule where
  "map_not_function = \<lparr>
     rule_id = ''map-not-function'',
     rule_name = ''Map Called on Non-Array'',
     category = Javascript,
     match = (\<lambda>e. on_message e (\<lambda>m.
       str_includes m ''map is not a function'' \<or>
       str_includes m ''.map'' \<and> str_includes m ''not a function'')),
     title = ''Called map() on something that isn't an array'',
     severity = Some High,
     frameworks = None \<rparr>"

definition not_defined :: ErrorRule where
  "not_defined = \<lparr>
     rule_id = ''not-defined'',
     rule_name = ''Variable Not Defined'',
     category = Javascript,
     match = (\<lambda>e. on_message e (\<lambda>m.
       str_includes m ''is not defined'' \<or>
       name e = Some ''ReferenceError'')),
     title = ''Using a variable that doesn't exist'',
     severity = Some Medium,
     frameworks = None \<rparr>"

definition json_parse_error :: ErrorRule where
  "json_parse_error = \<lparr>
     rule_id = ''json-parse-error'',
     rule_name = ''JSON Parse Error'',
     category = Json,
     match = (\<lambda>e. on_message e (\<lambda>m.
       str_includes m ''Unexpected token'' \<and> str_includes m ''JSON'' \<or>
       str_includes m ''JSON.parse'' \<or>
       str_includes m ''not valid JSON'')),
     title = ''Failed to parse JSON data'',
     severity = Some High,
     frameworks = None \<rparr>"

definition fetch_failed :: ErrorRule where
  "fetch_failed = \<lparr>
     rule_id = ''fetch-failed'',
     rule_name = ''Network Request Failed'',
     category = Network,
     match = (\<lambda>e. on_message e (\<lambda>m.
       str_includes m ''fetch failed'' \<or>
       str_includes m ''NetworkError'' \<or>
       str_includes m ''ECONNREFUSED'')),
     title = ''Network request failed'',
     severity = Some Medium,
     frameworks = None \<rparr>"

definition await_outside_async :: ErrorRule where
  "await_outside_async = \<lparr>
     rule_id = ''await-outside-async'',
     rule_name = ''Await Outside Async Function'',
     category = Async,
     match = (\<lambda>e. on_message e (\<lambda>m.
       str_includes m ''await is only valid in async functions'' \<or>
       str_includes m ''await is only valid in async'')),
     title = ''Used await outside an async function'',
     severity = Some Medium,
     frameworks = None \<rparr>"

definition promise_rejection :: ErrorRule where
  "promise_rejection = \<lparr>
     rule_id = ''promise-rejection'',
     rule_name = ''Unhandled Promise Rejection'',
     category = Async,
     match = (\<lambda>e. on_message e (\<lambda>m.
       str_includes m ''UnhandledPromiseRejectionWarning'' \<or>
       name e = Some ''UnhandledPromiseRejection'')),
     title = ''Promise rejected but not caught'',
     severity = Some High,
     frameworks = None \<rparr>"

definition enoent :: ErrorRule where
  "enoent = \<lparr>
     rule_id = ''enoent'',
     rule_name = ''File Not Found'',
     category = Nodejs,
     match = (\<lambda>e. on_message e (\<lambda>m.
       str_includes m ''ENOENT'' \<or>
       str_includes m ''no such file or directory'')),
     title = ''File or directory doesn't exist'',
     severity = Some Medium,
     frameworks = None \<rparr>"

definition eacces :: ErrorRule where
  "eacces = \<lparr>
     rule_id = ''eacces'',
     rule_name = ''Permission Denied'',
     category = Nodejs,
     match = (\<lambda>e. on_message e (\<lambda>m.
       str_includes m ''EACCES'' \<or>
       str_includes m ''permission denied'')),
     title = ''Permission denied for file operation'',
     severity = Some Medium,
     frameworks = None \<rparr>"

definition port_in_use :: ErrorRule where
  "port_in_use = \<lparr>
     rule_id = ''port-in-use'',
     rule_name = ''Port Already in Use'',
     category = Nodejs,
     match = (\<lambda>e. on_message e (\<lambda>m.
       str_includes m ''EADDRINUSE'' \<or>
       str_includes m ''port already in use'' \<or>
       str_includes m ''address already in use'')),
     title = ''Port is already being used by another process'',
     severity = Some Low,
     frameworks = None \<rparr>"

definition react_children :: ErrorRule where
  "react_children = \<lparr>
     rule_id = ''react-children'',
     rule_name = ''Invalid React Child'',
     category = React,
     match = (\<lambda>e. on_message e (\<lambda>m.
       str_includes m ''Objects are not valid as a React child'' \<or>
       str_includes m ''Functions are not valid as a React child'')),
     title = ''Trying to render an object as React child'',
     severity = Some High,
     frameworks = Some [''react''] \<rparr>"

definition react_too_many_renders :: ErrorRule where
  "react_too_many_renders = \<lparr>
     rule_id = ''react-too-many-renders'',
     rule_name = ''Too Many React Re-renders'',
     category = React,
     match = (\<lambda>e. on_message e (\<lambda>m.
       str_includes m ''Too many re-renders'' \<or>
       str_includes m ''Maximum update depth exceeded'')),
     title = ''Infinite re-render loop in React'',
     severity = Some Critical,
     frameworks = Some [''react''] \<rparr>"

definition react_hooks_rules :: ErrorRule where
  "react_hooks_rules = \<lparr>
     rule_id = ''react-hooks-rules'',
     rule_name = ''React Hooks Rules Violation'',
     category = React,
     match = (\<lambda>e. on_message e (\<lambda>m.
       str_includes m ''Hooks can only be called inside'' \<or>
       str_includes m ''Invalid hook call'')),
     title = ''React hook called outside component or in wrong order'',
     severity = Some High,
     frameworks = Some [''react''] \<rparr>"

definition coreRules :: "ErrorRule list" where
  "coreRules =
     [undefined_property, null_property, map_not_function, not_defined,
      json_parse_error, fetch_failed, await_outside_async, promise_rejection,
      enoent, eacces, port_in_use,
      react_children, react_too_many_renders, react_hooks_rules]"

section \<open>The matching engine (engine/rule-engine.ts)\<close>

record RuleEngine =
  rules :: "ErrorRule list"

text \<open>The constructor: \<open>this.rules = [...coreRules, ...customRules]\<close>.\<close>

definition new_RuleEngine :: "ErrorRule list \<Rightarrow> RuleEngine" where
  "new_RuleEngine customRules = \<lparr> rules = coreRules @ customRules \<rparr>"

text \<open>
  \<open>context?.framework\<close> is \<open>undefined\<close> when the context is absent. A string
  used as a condition is true when it is present and not empty.
\<close>

definition context_framework :: "ErrorContext option \<Rightarrow> string option" where
  "context_framework context = (case context of None \<Rightarrow> None | Some c \<Rightarrow> framework c)"

definition truthy :: "string option \<Rightarrow> bool" where
  "truthy s = (case s of None \<Rightarrow> False | Some v \<Rightarrow> v \<noteq> [])"

definition frameworks_includes :: "ErrorRule \<Rightarrow> string \<Rightarrow> bool" where
  "frameworks_includes r f = (case frameworks r of None \<Rightarrow> False | Some fs \<Rightarrow> f \<in> set fs)"

text \<open>
  \<open>if (cond) confidence += k\<close> is \<open>add_if cond k conf\<close>, with \<open>conf\<close> the local variable
  \<open>confidence\<close>.
\<close>

definition add_if :: "bool \<Rightarrow> rat \<Rightarrow> rat \<Rightarrow> rat" where
  "add_if cond k conf = (if cond then js_add conf k else conf)"

text \<open>
  \<open>calculateConfidence\<close>. \<open>error.message.toLowerCase()\<close> throws a
  \<open>TypeError\<close> when the message is \<open>undefined\<close>; nothing else in the function
  throws. The two severity tests are two separate \<open>if\<close> statements, as in the source.
\<close>

definition calculateConfidence ::
  "ErrorRule \<Rightarrow> js_error \<Rightarrow> ErrorContext option \<Rightarrow> js_exception + rat" where
  "calculateConfidence r e context =
     (case message e of
        None \<Rightarrow> Inl TypeError
      | Some msg \<Rightarrow>
          let conf = round_double (1 / 2);
              conf =
                add_if (str_includes (toLowerCase msg) (toLowerCase (title r)))
                  (round_double (3 / 10)) conf;
              conf =
                add_if (truthy (context_framework context) \<and>
                        frameworks_includes r (the (context_framework context)))
                  (round_double (2 / 10)) conf;
              conf =
                add_if (truthy (name e) \<and>
                        str_includes (toLowerCase (rule_name r)) (toLowerCase (the (name e))))
                  (round_double (1 / 10)) conf;
              conf = add_if (severity r = Some Critical) (round_double (1 / 10)) conf;
              conf = add_if (severity r = Some High) (round_double (5 / 100)) conf
          in Inr (min conf 1))"

text \<open>
  The loop of \<open>findMatch\<close>: the rules in stored order, the current \<open>matches\<close>
  array as accumulator. A predicate or a scoring that throws ends the loop with the exception,
  since the source has no \<open>try\<close> around either call.
\<close>

fun collectMatches ::
  "ErrorRule list \<Rightarrow> js_error \<Rightarrow> ErrorContext option \<Rightarrow> RuleMatch list
     \<Rightarrow> js_exception + RuleMatch list" where
  "collectMatches [] e context matches = Inr matches"
| "collectMatches (r # rs) e context matches =
     (case match r e of
        Inl exn \<Rightarrow> Inl exn
      | Inr False \<Rightarrow> collectMatches rs e context matches
      | Inr True \<Rightarrow>
          (case calculateConfidence r e context of
             Inl exn \<Rightarrow> Inl exn
           | Inr c \<Rightarrow>
               collectMatches rs e context
                 (matches @ [\<lparr> rule = r, error = e, confidence = c \<rparr>])))"

text \<open>
  \<open>Array.prototype.sort\<close> with a comparator is a stable sort (ECMAScript 2019): an
  element goes before another when the comparator is negative, and elements that compare
  equal keep their order. Stable insertion computes that unique result.
\<close>

fun insert_sorted :: "('a \<Rightarrow> 'a \<Rightarrow> rat) \<Rightarrow> 'a \<Rightarrow> 'a list \<Rightarrow> 'a list" where
  "insert_sorted cmp x [] = [x]"
| "insert_sorted cmp x (y # ys) =
     (if cmp x y \<le> 0 then x # y # ys else y # insert_sorted cmp x ys)"

definition array_sort :: "('a \<Rightarrow> 'a \<Rightarrow> rat) \<Rightarrow> 'a list \<Rightarrow> 'a list" where
  "array_sort cmp xs = foldr (insert_sorted cmp) xs []"

text \<open>
  The comparator \<open>(a, b) => b.confidence - a.confidence\<close>. Only its sign is used, and
  the sign of a binary64 difference is the sign of the exact difference.
\<close>

definition by_confidence :: "RuleMatch \<Rightarrow> RuleMatch \<Rightarrow> rat" where
  "by_confidence a b = confidence b - confidence a"

definition findMatch ::
  "RuleEngine \<Rightarrow> js_error \<Rightarrow> ErrorContext option \<Rightarrow> js_exception + RuleMatch option" where
  "findMatch this e context =
     (case collectMatches (rules this) e context [] of
        Inl exn \<Rightarrow> Inl exn
      | Inr matches \<Rightarrow>
          if length matches = 0 then Inr None
          else (case array_sort by_confidence matches of
                  [] \<Rightarrow> Inr None
                | m # _ \<Rightarrow> Inr (Some m)))"

definition addRules :: "RuleEngine \<Rightarrow> ErrorRule list \<Rightarrow> RuleEngine" where
  "addRules this rs = this \<lparr> rules := rules this @ rs \<rparr>"

definition getRulesByCategory :: "RuleEngine \<Rightarrow> category \<Rightarrow> ErrorRule list" where
  "getRulesByCategory this c = filter (\<lambda>r. category r = c) (rules this)"

definition getRulesByFramework :: "RuleEngine \<Rightarrow> string \<Rightarrow> ErrorRule list" where
  "getRulesByFramework this f = filter (\<lambda>r. frameworks_includes r f) (rules this)"

text \<open>
  \<open>getStats\<close>. The three counting objects are maps, and
  \<open>m[k] = (m[k] || 0) + 1\<close> is \<open>increment k m\<close>. A rule without severity is counted under the key \<open>unknown\<close>, here
  \<open>None\<close>.
\<close>

record Stats =
  totalRules :: nat
  byCategory :: "category \<rightharpoonup> nat"
  byFramework :: "string \<rightharpoonup> nat"
  bySeverity :: "severity option \<rightharpoonup> nat"

definition count_of :: "('k \<rightharpoonup> nat) \<Rightarrow> 'k \<Rightarrow> nat" where
  "count_of counts key = (case counts key of Some n \<Rightarrow> n | None \<Rightarrow> 0)"

definition increment :: "'k \<Rightarrow> ('k \<rightharpoonup> nat) \<Rightarrow> ('k \<rightharpoonup> nat)" where
  "increment key counts = counts (key := Some (count_of counts key + 1))"

definition count_rule :: "ErrorRule \<Rightarrow> Stats \<Rightarrow> Stats" where
  "count_rule r stats =
     stats \<lparr> byCategory := increment (category r) (byCategory stats),
             bySeverity := increment (severity r) (bySeverity stats),
             byFramework := (case frameworks r of
                               None \<Rightarrow> byFramework stats
                             | Some fs \<Rightarrow> fold increment fs (byFramework stats)) \<rparr>"

definition getStats :: "RuleEngine \<Rightarrow> Stats" where
  "getStats this =
     fold count_rule (rules this)
       \<lparr> totalRules = length (rules this), byCategory = Map.empty,
         byFramework = Map.empty, bySeverity = Map.empty \<rparr>"

definition categories :: "category list" where
  "categories = [Javascript, Nodejs, React, Network, Async, Json]"

section \<open>The legacy helper (core/index.ts)\<close>

text \<open>
  \<open>ErrorExplanation\<close> and \<open>PrettyTryResult\<close> (types/index.ts). The fields
  \<open>message\<close>, \<open>reason\<close> and \<open>fix\<close> are called \<open>ex_message\<close>,
  \<open>ex_reason\<close> and \<open>ex_fix\<close>, and the field \<open>error\<close> of the result
  is called \<open>explained\<close>. \<open>ex_reason\<close> and \<open>ex_fix\<close> are optional
  because one path of \<open>getErrorExplanation\<close> leaves them \<open>undefined\<close>.
\<close>

record ErrorExplanation =
  ex_message :: string
  ex_reason :: "string option"
  ex_fix :: "string option"
  suggestions :: "string list option"

record 'a PrettyTryResult =
  success :: bool
  data :: "'a option"
  explained :: "ErrorExplanation option"

text \<open>The table \<open>errorMappings\<close>, in declaration order: key, reason, fix, suggestions.\<close>

definition errorMappings :: "(string \<times> string \<times> string \<times> string list) list" where
  "errorMappings =
   [(''Cannot read properties of undefined'',
     ''You tried to use something before it existed.'',
     ''Check if the value exists first using optional chaining (?.) or if statements.'',
     [''Try: value?.property instead of value.property'',
      ''Add: if (value) { /* your code */ }'',
      ''Initialize the variable before using it'']),
    (''Cannot read properties of null'',
     ''You tried to access properties on a null value.'',
     ''Check if the value is null before accessing its properties.'',
     [''Use optional chaining: value?.property'',
      ''Add null check: if (value !== null)'',
      ''Provide a default value: value || defaultValue'']),
    (''map is not a function'',
     ''You tried to call map() on something that isn't an array.'',
     ''Make sure you're calling map() on an actual array.'',
     [''Check if the value is an array: Array.isArray(value)'',
      ''Convert to array first: Array.from(value)'',
      ''Use optional chaining: value?.map(...)'']),
    (''Unexpected token'',
     ''Failed to parse JSON - the response isn't valid JSON.'',
     ''The API probably returned HTML or an error message instead of JSON.'',
     [''Check response.status before parsing'',
      ''Log the raw response: console.log(await response.text())'',
      ''Verify the API endpoint is correct'']),
    (''Failed to fetch'',
     ''Network request failed - can't reach the server.'',
     ''Check your internet connection and the API URL.'',
     [''Verify the URL is correct'',
      ''Check if the server is running'',
      ''Try accessing the URL in your browser'']),
    (''await is only valid in async functions'',
     ''You used await outside of an async function.'',
     ''Add the async keyword to your function declaration.'',
     [''Change: function myFunc() to async function myFunc()'',
      ''For arrow functions: () => {} to async () => {}'',
      ''Use .then() instead of await if not in async function'']),
    (''module not found'',
     ''The module you're trying to import doesn't exist.'',
     ''Install the missing package or check the import path.'',
     [''Run: npm install package-name'',
      ''Check spelling in the import statement'',
      ''Verify the file path is correct''])]"

text \<open>
  \<open>errorMappings\<close> is an object literal, so \<open>errorMappings[key]\<close> also finds
  the properties inherited from \<open>Object.prototype\<close>. Their values are functions or
  objects: true as a condition, and with nothing for the spread to copy.
\<close>

definition objectPrototypeKeys :: "string list" where
  "objectPrototypeKeys =
     [''constructor'', ''hasOwnProperty'', ''isPrototypeOf'', ''propertyIsEnumerable'',
      ''toLocaleString'', ''toString'', ''valueOf'', ''__proto__'',
      ''__defineGetter__'', ''__defineSetter__'', ''__lookupGetter__'', ''__lookupSetter__'']"

definition explain :: "string \<Rightarrow> string \<times> string \<times> string list \<Rightarrow> ErrorExplanation" where
  "explain errorMessage x =
     (case x of (reason, fix, sugg) \<Rightarrow>
        \<lparr> ex_message = errorMessage, ex_reason = Some reason, ex_fix = Some fix,
          suggestions = Some sugg \<rparr>)"

text \<open>
  \<open>getErrorExplanation\<close>. When \<open>error.message\<close> is \<open>undefined\<close> the
  exact lookup finds nothing and the first \<open>errorMessage.includes(key)\<close> of the loop
  throws a \<open>TypeError\<close>.
\<close>

definition getErrorExplanation :: "js_error \<Rightarrow> js_exception + ErrorExplanation" where
  "getErrorExplanation e =
     (case message e of
        None \<Rightarrow> Inl TypeError
      | Some errorMessage \<Rightarrow>
          (case map_of errorMappings errorMessage of
             Some x \<Rightarrow> Inr (explain errorMessage x)
           | None \<Rightarrow>
               if errorMessage \<in> set objectPrototypeKeys
               then Inr \<lparr> ex_message = errorMessage, ex_reason = None, ex_fix = None,
                          suggestions = None \<rparr>
               else
                 (case find (\<lambda>entry. str_includes errorMessage (fst entry)) errorMappings of
                    Some entry \<Rightarrow> Inr (explain errorMessage (snd entry))
                  | None \<Rightarrow>
                      Inr \<lparr> ex_message = errorMessage,
                            ex_reason = Some
                              ''Something went wrong, but this error type isn't mapped yet.'',
                            ex_fix = Some
                              ''Check the error message and try to understand what went wrong.'',
                            suggestions = Some
                              [''Look at the line number in the error'',
                               ''Check your variable values'',
                               ''Search online for this specific error''] \<rparr>)))"

text \<open>
  What a call of \<open>fn\<close> does: it returns a value or throws one. A thrown value is an
  \<open>Error\<close> instance or anything else; of a value that is not an \<open>Error\<close> the
  function only uses \<open>String(error)\<close>, so such a value is given by what that conversion
  does: it yields a string, or it throws itself (as for \<open>Object.create(null)\<close>, or an
  object whose \<open>toString\<close> throws).
\<close>

datatype thrown = ErrorInstance js_error | NonError "js_exception + string"

datatype 'a outcome = Returns 'a | Throws thrown

definition prettyTry :: "(unit \<Rightarrow> 'a outcome) \<Rightarrow> js_exception + 'a PrettyTryResult" where
  "prettyTry fn =
     (case fn () of
        Returns result \<Rightarrow> Inr \<lparr> success = True, data = Some result, explained = None \<rparr>
      | Throws (ErrorInstance err) \<Rightarrow>
          (case getErrorExplanation err of
             Inl exn \<Rightarrow> Inl exn
           | Inr ex \<Rightarrow> Inr \<lparr> success = False, data = None, explained = Some ex \<rparr>)
      | Throws (NonError str) \<Rightarrow>
          (case str of
             Inl exn \<Rightarrow> Inl exn
           | Inr s \<Rightarrow>
               Inr \<lparr> success = False, data = None,
                     explained = Some
                       \<lparr> ex_message = s,
                         ex_reason = Some ''An unknown error occurred.'',
                         ex_fix = Some ''Check your code for potential issues.'',
                         suggestions = Some
                           [''Add proper error handling'', ''Validate your inputs''] \<rparr> \<rparr>))"

section \<open>The scoring algorithm in the words of the specification\<close>

text \<open>
  These definitions follow the specification, not the source: the base 0.5, plus 0.3 for the
  title, plus 0.2 for the framework, plus 0.1 for the name, plus 0.1 or 0.05 for the severity
  (one of them at most), the sum clamped to 1.0. \<open>plus\<close> is the addition of
  JavaScript numbers, in the order of the specification's list.
  \<open>framework_bonus_stated\<close> is the framework condition as the specification states it
  (\<open>context.framework\<close> is set and is a member of the rule's frameworks);
  \<open>framework_bonus_amended\<close> asks in addition that the framework is not the empty
  string.
\<close>

definition plus_if :: "bool \<Rightarrow> rat \<Rightarrow> rat \<Rightarrow> rat" where
  "plus_if applies bonus acc = (if applies then js_add acc bonus else acc)"

definition title_bonus :: "ErrorRule \<Rightarrow> string \<Rightarrow> bool" where
  "title_bonus r msg = str_includes (toLowerCase msg) (toLowerCase (title r))"

definition framework_bonus_stated :: "ErrorRule \<Rightarrow> ErrorContext option \<Rightarrow> bool" where
  "framework_bonus_stated r context =
     (case context of
        None \<Rightarrow> False
      | Some c \<Rightarrow> (case framework c of None \<Rightarrow> False | Some f \<Rightarrow> frameworks_includes r f))"

definition framework_bonus_amended :: "ErrorRule \<Rightarrow> ErrorContext option \<Rightarrow> bool" where
  "framework_bonus_amended r context =
     (case context of
        None \<Rightarrow> False
      | Some c \<Rightarrow>
          (case framework c of None \<Rightarrow> False | Some f \<Rightarrow> f \<noteq> [] \<and> frameworks_includes r f))"

definition name_bonus :: "ErrorRule \<Rightarrow> string option \<Rightarrow> bool" where
  "name_bonus r error_name =
     (case error_name of
        None \<Rightarrow> False
      | Some n \<Rightarrow> n \<noteq> [] \<and> str_includes (toLowerCase (rule_name r)) (toLowerCase n))"

definition severity_bonus :: "ErrorRule \<Rightarrow> rat \<Rightarrow> rat" where
  "severity_bonus r acc =
     (case severity r of
        Some Critical \<Rightarrow> js_add acc (round_double (1 / 10))
      | Some High \<Rightarrow> js_add acc (round_double (5 / 100))
      | _ \<Rightarrow> acc)"

definition spec_confidence :: "bool \<Rightarrow> ErrorRule \<Rightarrow> string \<Rightarrow> string option \<Rightarrow> rat" where
  "spec_confidence framework_applies r msg error_name =
     min 1
       (severity_bonus r
          (plus_if (name_bonus r error_name) (round_double (1 / 10))
             (plus_if framework_applies (round_double (2 / 10))
                (plus_if (title_bonus r msg) (round_double (3 / 10))
                   (round_double (1 / 2))))))"

section \<open>Concrete inputs\<close>

text \<open>
  The error \<open>{ name: "TypeError", message: "Cannot read properties of undefined
  (reading 'map')" }\<close>.
\<close>

definition typeError_map :: js_error where
  "typeError_map =
     \<lparr> name = Some ''TypeError'',
       message = Some ''Cannot read properties of undefined (reading 'map')'',
       stack = None \<rparr>"

text \<open>The context \<open>{ framework: "react", environment: "browser" }\<close>.\<close>

definition react_browser :: ErrorContext where
  "react_browser =
     \<lparr> framework = Some ''react'', environment = Some Browser, code = None,
       line = None, column = None \<rparr>"

text \<open>
  An error-like value without \<open>message\<close>, and the same value with the empty string
  as message.
\<close>

definition no_message :: js_error where
  "no_message = \<lparr> name = Some ''TypeError'', message = None, stack = None \<rparr>"

definition empty_message :: js_error where
  "empty_message = \<lparr> name = Some ''TypeError'', message = Some '''', stack = None \<rparr>"

text \<open>
  An error no rule of the catalog matches, a custom rule whose predicate throws, and a custom
  rule that matches the error.
\<close>

definition quota_exceeded :: js_error where
  "quota_exceeded = \<lparr> name = Some ''Error'', message = Some ''quota exceeded'', stack = None \<rparr>"

definition faulty_rule :: ErrorRule where
  "faulty_rule = \<lparr>
     rule_id = ''faulty'',
     rule_name = ''Faulty predicate'',
     category = Javascript,
     match = (\<lambda>e. Inl (Thrown ''predicate failed'')),
     title = ''A predicate that throws'',
     severity = None,
     frameworks = None \<rparr>"

definition quota_rule :: ErrorRule where
  "quota_rule = \<lparr>
     rule_id = ''quota'',
     rule_name = ''Storage Quota'',
     category = Javascript,
     match = (\<lambda>e. on_message e (\<lambda>m. str_includes m ''quota'')),
     title = ''Storage quota reached'',
     severity = Some Low,
     frameworks = None \<rparr>"

text \<open>
  A second custom rule that matches the same error, with the same confidence.
\<close>

definition exceeded_rule :: ErrorRule where
  "exceeded_rule = \<lparr>
     rule_id = ''exceeded'',
     rule_name = ''Limit Exceeded'',
     category = Nodejs,
     match = (\<lambda>e. on_message e (\<lambda>m. str_includes m ''exceeded'')),
     title = ''A limit was exceeded by the caller'',
     severity = None,
     frameworks = None \<rparr>"

text \<open>
  A context whose framework is the empty string, a rule whose frameworks contain the empty
  string, and an error the React rules of the catalog match.
\<close>

definition blank_framework :: ErrorContext where
  "blank_framework =
     \<lparr> framework = Some '''', environment = None, code = None, line = None, column = None \<rparr>"

definition blank_framework_rule :: ErrorRule where
  "blank_framework_rule = \<lparr>
     rule_id = ''blank-framework'',
     rule_name = ''Quota With Blank Framework'',
     category = Javascript,
     match = (\<lambda>e. on_message e (\<lambda>m. str_includes m ''quota'')),
     title = ''Storage quota reached'',
     severity = None,
     frameworks = Some [''''] \<rparr>"

definition react_child_error :: js_error where
  "react_child_error =
     \<lparr> name = Some ''Error'', message = Some ''Objects are not valid as a React child'',
       stack = None \<rparr>"

text \<open>
  Three functions for \<open>prettyTry\<close>: one throws the \<open>TypeError\<close> above, one
  throws a value whose string conversion throws (\<open>throw Object.create(null)\<close>), one
  throws an \<open>Error\<close> whose message is \<open>undefined\<close>.
\<close>

definition throws_typeError_map :: "unit \<Rightarrow> nat outcome" where
  "throws_typeError_map = (\<lambda>_. Throws (ErrorInstance typeError_map))"

definition throws_bare_object :: "unit \<Rightarrow> nat outcome" where
  "throws_bare_object = (\<lambda>_. Throws (NonError (Inl TypeError)))"

definition throws_no_message :: "unit \<Rightarrow> nat outcome" where
  "throws_no_message = (\<lambda>_. Throws (ErrorInstance no_message))"

section \<open>Properties of the scoring\<close>

lemma pow2_pos: "0 < pow2 k"
  by (simp add: pow2_def)

lemma round_double_nonneg: "0 \<le> round_double x"
proof (cases "x \<le> 0")
  case True
  then show ?thesis by (simp add: round_double_def)
next
  case False
  define u where "u = pow2 (binade x - 52)"
  define q where "q = \<lfloor>x / u\<rfloor>"
  have u: "0 < u" by (simp add: u_def pow2_pos)
  with False have "0 \<le> x / u" by simp
  then have q: "0 \<le> q" by (simp add: q_def)
  then have "0 \<le> of_int q * u" and "0 \<le> of_int (q + 1) * u"
    using u by simp_all
  with False show ?thesis
    by (simp add: round_double_def Let_def u_def [symmetric] q_def [symmetric])
qed

lemma js_add_nonneg: "0 \<le> js_add a b"
  by (simp add: js_add_def round_double_nonneg)

lemma calculateConfidence_missing_message:
  "message e = None \<Longrightarrow> calculateConfidence r e context = Inl TypeError"
  by (simp add: calculateConfidence_def)

lemma calculateConfidence_returns:
  "message e = Some msg \<Longrightarrow> \<exists>x. calculateConfidence r e context = Inr x"
  by (simp add: calculateConfidence_def Let_def)

lemma add_if_nonneg: "0 \<le> c \<Longrightarrow> 0 \<le> add_if b k c"
  by (simp add: add_if_def js_add_nonneg)

lemma calculateConfidence_range:
  assumes "calculateConfidence r e context = Inr x"
  shows "0 \<le> x \<and> x \<le> 1"
proof -
  from assms obtain msg where msg: "message e = Some msg"
    by (cases "message e") (simp_all add: calculateConfidence_def)
  from assms msg show ?thesis
    by (auto simp: calculateConfidence_def Let_def round_double_nonneg add_if_nonneg)
qed

section \<open>The string and number models\<close>

text \<open>
  \<open>str_includes\<close> is the substring test, and \<open>startsWith\<close> the prefix test.
\<close>

lemma startsWith_iff: "startsWith s sub \<longleftrightarrow> (\<exists>rest. s = sub @ rest)"
  by (induction s sub rule: startsWith.induct) auto

lemma str_includes_iff: "str_includes s sub \<longleftrightarrow> (\<exists>before after. s = before @ sub @ after)"
proof (induction s)
  case Nil
  then show ?case by simp
next
  case (Cons x xs)
  show ?case
  proof
    assume "str_includes (x # xs) sub"
    then consider "startsWith (x # xs) sub" | "str_includes xs sub" by auto
    then show "\<exists>before after. x # xs = before @ sub @ after"
    proof cases
      case 1
      then obtain rest where "x # xs = sub @ rest" by (auto simp: startsWith_iff)
      then have "x # xs = [] @ sub @ rest" by simp
      then show ?thesis by blast
    next
      case 2
      with Cons obtain before after where "xs = before @ sub @ after" by blast
      then have "x # xs = (x # before) @ sub @ after" by simp
      then show ?thesis by blast
    qed
  next
    assume "\<exists>before after. x # xs = before @ sub @ after"
    then obtain before after where eq: "x # xs = before @ sub @ after" by blast
    show "str_includes (x # xs) sub"
    proof (cases before)
      case Nil
      with eq have "startsWith (x # xs) sub" by (auto simp: startsWith_iff)
      then show ?thesis by simp
    next
      case (Cons b bs)
      with eq have "xs = bs @ sub @ after" by simp
      with Cons.IH have "str_includes xs sub" by blast
      then show ?thesis by simp
    qed
  qed
qed

lemma toLowerCase_example: "toLowerCase ''TypeError: x_1 Z'' = ''typeerror: x_1 z''"
  by code_simp

lemma js_add_example:
  "js_add (round_double (1 / 10)) (round_double (2 / 10)) = 1351079888211149 / 4503599627370496"
  "round_double (3 / 10) = 5404319552844595 / 18014398509481984"
  by code_simp+

lemma js_add_order:
  "js_add (js_add (round_double (1 / 2)) (round_double (2 / 10))) (round_double (1 / 10)) =
     7205759403792793 / 9007199254740992"
  "js_add (round_double (1 / 2)) (round_double (3 / 10)) = 3602879701896397 / 4503599627370496"
  by code_simp+

text \<open>
  \<open>binade\<close> is the binary exponent, and \<open>round_double\<close> returns a multiple of
  the spacing \<open>2^(binade x - 52)\<close> at most half a spacing away from its argument. The
  two sums of \<open>js_add_order\<close> are both 0.8 in exact arithmetic and differ as
  JavaScript numbers, which is why the sums are modelled with their rounding.
\<close>

lemma binade_bounds:
  assumes "0 < x"
  shows "pow2 (binade x) \<le> x \<and> x < pow2 (binade x + 1)"
proof (cases "1 \<le> x")
  case True
  define n where "n = \<lfloor>x\<rfloor>"
  from True have n: "0 < n" by (simp add: n_def)
  from bitlen_bounds [OF n] have lo: "2 ^ nat (bitlen n - 1) \<le> n" and hi: "n < 2 ^ nat (bitlen n)"
    by simp_all
  from n have pos: "1 \<le> bitlen n"
    using bitlen_eq_zero_iff [of n] bitlen_nonneg [of n] by linarith
  have "(2::rat) ^ nat (bitlen n - 1) \<le> rat_of_int n"
    using lo by simp
  also have "\<dots> \<le> x" by (simp add: n_def)
  finally have 1: "pow2 (bitlen n - 1) \<le> x"
    using pos by (simp add: pow2_def)
  from hi have "n + 1 \<le> 2 ^ nat (bitlen n)" by simp
  then have "rat_of_int (n + 1) \<le> (2::rat) ^ nat (bitlen n)"
    by (simp only: of_int_le_numeral_power_cancel_iff)
  moreover have "x < rat_of_int (n + 1)"
    using floor_correct [of x] by (simp add: n_def)
  ultimately have "x < (2::rat) ^ nat (bitlen n)"
    by (rule less_le_trans [rotated])
  then have 2: "x < pow2 (bitlen n)"
    using pos by (simp add: pow2_def)
  from True 1 2 show ?thesis
    by (simp add: binade_def n_def)
next
  case False
  define m where "m = \<lceil>1 / x\<rceil> - 1"
  define l where "l = bitlen m"
  from False assms have "1 < 1 / x" by simp
  then have "1 < \<lceil>1 / x\<rceil>" by (simp add: less_ceiling_iff)
  then have m: "0 < m" by (simp add: m_def)
  from bitlen_bounds [OF m] have lo: "2 ^ nat (l - 1) \<le> m" and hi: "m < 2 ^ nat l"
    by (simp_all add: l_def)
  from m have pos: "1 \<le> l"
    using bitlen_eq_zero_iff [of m] bitlen_nonneg [of m] unfolding l_def by linarith
  have "rat_of_int m < 1 / x"
    by (simp add: m_def) linarith
  moreover have "(2::rat) ^ nat (l - 1) \<le> rat_of_int m"
    using lo by simp
  ultimately have a: "2 ^ nat (l - 1) < 1 / x" by (rule le_less_trans [rotated])
  from hi have "m + 1 \<le> 2 ^ nat l" by simp
  then have "rat_of_int (m + 1) \<le> (2::rat) ^ nat l"
    by (simp only: of_int_le_numeral_power_cancel_iff)
  moreover have "1 / x \<le> rat_of_int (m + 1)"
    by (simp add: m_def)
  ultimately have b: "1 / x \<le> 2 ^ nat l" by (rule order_trans [rotated])
  from b assms have 1: "1 / 2 ^ nat l \<le> x"
    by (simp add: field_simps)
  from a assms have 2: "x < 1 / 2 ^ nat (l - 1)"
    by (simp add: field_simps)
  have "pow2 (- l) = 1 / 2 ^ nat l"
    using pos by (simp add: pow2_def)
  moreover have "pow2 (- l + 1) = 1 / 2 ^ nat (l - 1)"
  proof (cases "l = 1")
    case True
    then show ?thesis by (simp add: pow2_def)
  next
    case False
    with pos have "\<not> 0 \<le> - l + 1" by simp
    moreover have "nat (- (- l + 1)) = nat (l - 1)" by simp
    ultimately show ?thesis by (simp only: pow2_def if_False)
  qed
  ultimately show ?thesis
    using False 1 2 by (simp add: binade_def m_def l_def)
qed


lemma one_of_two:
  "(if a then p else if b then s else if c then p else s) = p \<or>
   (if a then p else if b then s else if c then p else s) = (s::rat)"
  by simp

lemma round_double_nearest:
  assumes "0 < x"
  defines "u \<equiv> pow2 (binade x - 52)"
  shows "\<bar>round_double x - x\<bar> \<le> u / 2 \<and> (\<exists>k. round_double x = of_int k * u)"
proof -
  define q where "q = \<lfloor>x / u\<rfloor>"
  define r where "r = x / u - of_int q"
  have u: "0 < u" by (simp add: u_def pow2_pos)
  have r: "0 \<le> r" "r < 1"
    using floor_correct [of "x / u"] by (simp_all add: r_def q_def)
  from u have x: "x = (of_int q + r) * u"
    by (simp add: r_def)
  have down: "\<bar>of_int q * u - x\<bar> = r * u"
    using u r by (simp add: x algebra_simps abs_mult)
  have up: "\<bar>of_int (q + 1) * u - x\<bar> = (1 - r) * u"
    using u r by (simp add: x algebra_simps abs_mult)
  have val: "round_double x =
      (if r < 1 / 2 then of_int q * u
       else if 1 / 2 < r then of_int (q + 1) * u
       else if even q then of_int q * u else of_int (q + 1) * u)"
    using assms(1) by (simp add: round_double_def Let_def u_def q_def r_def)
  have "\<bar>round_double x - x\<bar> \<le> u / 2"
  proof (cases "r < 1 / 2")
    case True
    with u have "r * u \<le> u / 2" by (simp add: field_simps)
    with True show ?thesis by (simp only: val down if_True)
  next
    case False
    show ?thesis
    proof (cases "1 / 2 < r")
      case True
      with u have "(1 - r) * u \<le> u / 2" by (simp add: field_simps)
      with True False show ?thesis by (simp only: val up if_True if_False)
    next
      case not_gt: False
      with False have half: "r = 1 / 2" by simp
      with u have "r * u \<le> u / 2" "(1 - r) * u \<le> u / 2" by simp_all
      then show ?thesis
        using False not_gt
        by (cases "even q") (simp_all only: val down up if_True if_False)
    qed
  qed
  moreover have "round_double x = of_int q * u \<or> round_double x = of_int (q + 1) * u"
    unfolding val by (rule one_of_two)
  then have "\<exists>k. round_double x = of_int k * u"
    by blast
  ultimately show ?thesis ..
qed

section \<open>Properties of the loop and of the sort\<close>

lemma collectMatches_throw:
  "match r e = Inl exn \<Longrightarrow> collectMatches (r # rs) e context acc = Inl exn"
  by simp

lemma collectMatches_skip:
  "match r e = Inr False \<Longrightarrow>
   collectMatches (r # rs) e context acc = collectMatches rs e context acc"
  by simp

lemma collectMatches_score_throw:
  "match r e = Inr True \<Longrightarrow> calculateConfidence r e context = Inl exn \<Longrightarrow>
   collectMatches (r # rs) e context acc = Inl exn"
  by simp

lemma collectMatches_push:
  "match r e = Inr True \<Longrightarrow> calculateConfidence r e context = Inr c \<Longrightarrow>
   collectMatches (r # rs) e context acc =
   collectMatches rs e context (acc @ [\<lparr> rule = r, error = e, confidence = c \<rparr>])"
  by simp

lemma match_cases:
  obtains (throw) exn where "match r e = Inl exn"
  | (skip) "match r e = Inr False"
  | (hit) "match r e = Inr True"
  by (cases "match r e") auto

declare collectMatches.simps(2) [simp del]

lemma collectMatches_sound:
  assumes "collectMatches rs e context acc = Inr ms"
    and "m \<in> set ms"
  shows "m \<in> set acc \<or>
         (\<exists>r\<in>set rs. match r e = Inr True \<and>
            m = \<lparr> rule = r, error = e, confidence = confidence m \<rparr> \<and>
            calculateConfidence r e context = Inr (confidence m))"
  using assms
proof (induction rs arbitrary: acc)
  case Nil
  then show ?case by simp
next
  case (Cons r rs)
  show ?case
  proof (cases r e rule: match_cases)
    case (throw exn)
    with Cons.prems(1) show ?thesis by (simp add: collectMatches_throw)
  next
    case skip
    with Cons.prems(1) have "collectMatches rs e context acc = Inr ms"
      by (simp add: collectMatches_skip)
    from Cons.IH [OF this Cons.prems(2)] show ?thesis by auto
  next
    case hit
    show ?thesis
    proof (cases "calculateConfidence r e context")
      case (Inl exn)
      with hit Cons.prems(1) show ?thesis by (simp add: collectMatches_score_throw)
    next
      case (Inr c)
      let ?new = "\<lparr> rule = r, error = e, confidence = c \<rparr>"
      from hit Inr Cons.prems(1) have "collectMatches rs e context (acc @ [?new]) = Inr ms"
        by (simp add: collectMatches_push)
      from Cons.IH [OF this Cons.prems(2)]
      consider "m \<in> set acc" | "m = ?new"
        | "\<exists>r\<in>set rs. match r e = Inr True \<and>
            m = \<lparr> rule = r, error = e, confidence = confidence m \<rparr> \<and>
            calculateConfidence r e context = Inr (confidence m)"
        by auto
      then show ?thesis
      proof cases
        case 1
        then show ?thesis by simp
      next
        case 2
        with hit Inr show ?thesis by simp
      next
        case 3
        then show ?thesis by auto
      qed
    qed
  qed
qed

lemma set_insert_sorted: "set (insert_sorted cmp x ys) = insert x (set ys)"
  by (induction ys) auto

lemma set_array_sort: "set (array_sort cmp xs) = set xs"
  by (induction xs) (simp_all add: array_sort_def set_insert_sorted)

text \<open>
  The sorted array is in descending order of confidence, and the matches of one confidence
  keep the order they had: the two properties that determine the result of a stable sort.
\<close>

lemma insert_sorted_by_confidence:
  assumes "sorted_wrt (\<lambda>a b. confidence b \<le> confidence a) ys"
  shows "sorted_wrt (\<lambda>a b. confidence b \<le> confidence a) (insert_sorted by_confidence x ys)"
  using assms
proof (induction ys)
  case Nil
  then show ?case by simp
next
  case (Cons y ys)
  show ?case
  proof (cases "by_confidence x y \<le> 0")
    case True
    then have "confidence y \<le> confidence x" by (simp add: by_confidence_def)
    with Cons.prems True show ?thesis by auto
  next
    case False
    then have "confidence x \<le> confidence y" by (simp add: by_confidence_def)
    with Cons False show ?thesis by (auto simp: set_insert_sorted)
  qed
qed

lemma array_sort_descending:
  "sorted_wrt (\<lambda>a b. confidence b \<le> confidence a) (array_sort by_confidence xs)"
  by (induction xs) (simp_all add: array_sort_def insert_sorted_by_confidence)

lemma insert_sorted_stable:
  "filter (\<lambda>m. confidence m = k) (insert_sorted by_confidence x ys) =
   filter (\<lambda>m. confidence m = k) (x # ys)"
proof (induction ys)
  case Nil
  then show ?case by simp
next
  case (Cons y ys)
  show ?case
  proof (cases "by_confidence x y \<le> 0")
    case True
    then show ?thesis by simp
  next
    case False
    then have "confidence x \<noteq> confidence y" by (auto simp: by_confidence_def)
    with Cons False show ?thesis by auto
  qed
qed

lemma array_sort_stable:
  "filter (\<lambda>m. confidence m = k) (array_sort by_confidence xs) =
   filter (\<lambda>m. confidence m = k) xs"
proof (induction xs)
  case Nil
  then show ?case by (simp add: array_sort_def)
next
  case (Cons x xs)
  have "array_sort by_confidence (x # xs) = insert_sorted by_confidence x (array_sort by_confidence xs)"
    by (simp add: array_sort_def)
  with Cons show ?case by (simp add: insert_sorted_stable)
qed

lemma collectMatches_none:
  "list_all (\<lambda>r. match r e = Inr False) rs \<Longrightarrow> collectMatches rs e context acc = Inr acc"
  by (induction rs) (simp_all add: collectMatches_skip)

section \<open>The shipped catalog on a concrete error\<close>

lemmas coreRule_defs =
  undefined_property_def null_property_def map_not_function_def not_defined_def
  json_parse_error_def fetch_failed_def await_outside_async_def promise_rejection_def
  enoent_def eacces_def port_in_use_def react_children_def react_too_many_renders_def
  react_hooks_rules_def

lemma match_typeError_map:
  "match undefined_property typeError_map = Inr True"
  "list_all (\<lambda>r. match r typeError_map = Inr False) (tl coreRules)"
  by (simp_all add: coreRules_def coreRule_defs on_message_def typeError_map_def)

lemma score_typeError_map:
  "calculateConfidence undefined_property typeError_map None =
     Inr (2476979795053773 / 4503599627370496)"
  by code_simp

lemma collect_typeError_map:
  "collectMatches coreRules typeError_map None [] =
     Inr [\<lparr> rule = undefined_property, error = typeError_map,
            confidence = 2476979795053773 / 4503599627370496 \<rparr>]"
proof -
  have "coreRules = undefined_property # tl coreRules"
    by (simp add: coreRules_def)
  then have "collectMatches coreRules typeError_map None [] =
      collectMatches (undefined_property # tl coreRules) typeError_map None []"
    by simp
  also have "\<dots> = collectMatches (tl coreRules) typeError_map None
      ([] @ [\<lparr> rule = undefined_property, error = typeError_map,
            confidence = 2476979795053773 / 4503599627370496 \<rparr>])"
    by (rule collectMatches_push [OF match_typeError_map(1) score_typeError_map])
  also have "\<dots> = Inr ([] @ [\<lparr> rule = undefined_property, error = typeError_map,
            confidence = 2476979795053773 / 4503599627370496 \<rparr>])"
    by (rule collectMatches_none [OF match_typeError_map(2)])
  finally show ?thesis by simp
qed

lemma findMatch_typeError_map:
  "findMatch (new_RuleEngine []) typeError_map None =
     Inr (Some \<lparr> rule = undefined_property, error = typeError_map,
                 confidence = 2476979795053773 / 4503599627370496 \<rparr>)"
  by (simp add: findMatch_def new_RuleEngine_def collect_typeError_map array_sort_def)

lemma double_0_55: "round_double (55 / 100) = 2476979795053773 / 4503599627370496"
  by code_simp

lemma double_0_8: "round_double (8 / 10) = 3602879701896397 / 4503599627370496"
  by code_simp

section \<open>The claims\<close>

subsection \<open>C3: the confidence of a returned match\<close>

text \<open>
  Claim C3. Whenever \<open>findMatch\<close> returns a match, the confidence of that match lies
  in the closed interval from 0 to 1.
\<close>

theorem findMatch_confidence_range:
  assumes "findMatch this e context = Inr (Some m)"
  shows "0 \<le> confidence m \<and> confidence m \<le> 1"
proof -
  from assms obtain ms where ms: "collectMatches (rules this) e context [] = Inr ms"
    by (cases "collectMatches (rules this) e context []") (simp_all add: findMatch_def)
  with assms have "m \<in> set (array_sort by_confidence ms)"
    by (auto simp: findMatch_def split: if_splits list.splits)
  then have "m \<in> set ms"
    by (simp add: set_array_sort)
  from collectMatches_sound [OF ms this]
  obtain r where "calculateConfidence r e context = Inr (confidence m)"
    by auto
  then show ?thesis
    by (rule calculateConfidence_range)
qed

theorem findMatch_confidence_range_witness:
  "findMatch (new_RuleEngine []) typeError_map None =
     Inr (Some \<lparr> rule = undefined_property, error = typeError_map,
                 confidence = 2476979795053773 / 4503599627370496 \<rparr>) \<and>
   (0::rat) \<le> 2476979795053773 / 4503599627370496 \<and>
   (2476979795053773 / 4503599627370496 :: rat) \<le> 1"
  using findMatch_confidence_range [OF findMatch_typeError_map] findMatch_typeError_map
  by simp

subsection \<open>C6: the shipped catalog on the undefined-property error\<close>

text \<open>
  Claim C6, as amended. For the error \<open>{ name: "TypeError", message: "Cannot read
  properties of undefined (reading 'map')" }\<close> with no context, \<open>findMatch\<close> on
  the shipped catalog returns the undefined-property rule with confidence 0.55: the base 0.5
  plus 0.05 for the severity \<open>high\<close>. The title bonus does not apply, because the
  message does not contain the title of the rule.
\<close>

theorem shipped_catalog_typeError_map:
  "findMatch (new_RuleEngine []) typeError_map None =
     Inr (Some \<lparr> rule = undefined_property, error = typeError_map,
                 confidence = round_double (55 / 100) \<rparr>) \<and>
   \<not> str_includes (toLowerCase (the (message typeError_map)))
       (toLowerCase (title undefined_property))"
proof -
  have "\<not> str_includes (toLowerCase (the (message typeError_map)))
       (toLowerCase (title undefined_property))"
    by code_simp
  moreover have "findMatch (new_RuleEngine []) typeError_map None =
     Inr (Some \<lparr> rule = undefined_property, error = typeError_map,
                 confidence = round_double (55 / 100) \<rparr>)"
    unfolding double_0_55 by (rule findMatch_typeError_map)
  ultimately show ?thesis
    by (rule conjI [rotated])
qed

theorem shipped_catalog_typeError_map_witness:
  "map_sum id (map_option (rule_id \<circ> rule)) (findMatch (new_RuleEngine []) typeError_map None) =
     Inr (Some ''undefined-property'')"
  using shipped_catalog_typeError_map
  by (simp add: undefined_property_def)

text \<open>
  The claim as stated asks for a confidence of at least 0.8; the confidence returned is 0.55.
\<close>

theorem shipped_catalog_typeError_map_counterexample:
  "map_sum id (map_option confidence) (findMatch (new_RuleEngine []) typeError_map None) =
     Inr (Some (round_double (55 / 100))) \<and>
   round_double (55 / 100) < round_double (8 / 10)"
  unfolding double_0_55 double_0_8 by (simp add: findMatch_typeError_map)

subsection \<open>C9: the total and the counts by category\<close>

lemma totalRules_fold: "totalRules (fold count_rule rs stats) = totalRules stats"
  by (induction rs arbitrary: stats) (simp_all add: count_rule_def)

lemma categories_complete: "c \<in> set categories"
  by (cases c) (simp_all add: categories_def)

lemma categories_distinct: "distinct categories"
  by (simp add: categories_def)

lemma length_by_category:
  "length rs = (\<Sum>c\<leftarrow>categories. length (filter (\<lambda>r. category r = c) rs))"
proof (induction rs)
  case Nil
  then show ?case by (simp add: categories_def)
next
  case (Cons r rs)
  have "(\<Sum>c\<leftarrow>categories. length (filter (\<lambda>r. category r = c) (r # rs))) =
        Suc (\<Sum>c\<leftarrow>categories. length (filter (\<lambda>r. category r = c) rs))"
    by (cases "category r") (simp_all add: categories_def)
  with Cons show ?case by simp
qed

lemma coreRules_by_category:
  "map (\<lambda>c. length (getRulesByCategory (new_RuleEngine []) c)) categories = [4, 3, 3, 1, 2, 1]"
  by (simp add: getRulesByCategory_def new_RuleEngine_def coreRules_def coreRule_defs categories_def)

text \<open>
  Claim C9. In every state of the rule set, \<open>getStats().totalRules\<close> is the sum, over
  the six categories, of the length of \<open>getRulesByCategory\<close> for the category. The
  list \<open>categories\<close> holds each of the six categories once
  (\<open>categories_complete\<close>, \<open>categories_distinct\<close>).
\<close>

theorem totalRules_by_category:
  "totalRules (getStats this) = (\<Sum>c\<leftarrow>categories. length (getRulesByCategory this c))"
  by (simp add: getStats_def totalRules_fold getRulesByCategory_def length_by_category [symmetric])

theorem totalRules_by_category_witness:
  "totalRules (getStats (new_RuleEngine [])) = 4 + 3 + 3 + 1 + 2 + 1"
  using totalRules_by_category [of "new_RuleEngine []"]
  by (simp add: coreRules_by_category)

subsection \<open>C7: the context and the candidates\<close>

lemma calculateConfidence_throws_same:
  "calculateConfidence r e c1 = Inl exn \<Longrightarrow> calculateConfidence r e c2 = Inl exn"
  by (cases "message e") (simp_all add: calculateConfidence_def Let_def)

lemma collectMatches_context:
  "map rule acc1 = map rule acc2 \<Longrightarrow>
   map_sum id (map rule) (collectMatches rs e c1 acc1) =
   map_sum id (map rule) (collectMatches rs e c2 acc2)"
proof (induction rs arbitrary: acc1 acc2)
  case Nil
  then show ?case by simp
next
  case (Cons r rs)
  show ?case
  proof (cases r e rule: match_cases)
    case (throw exn)
    then show ?thesis by (simp add: collectMatches_throw)
  next
    case skip
    with Cons show ?thesis by (simp add: collectMatches_skip)
  next
    case hit
    show ?thesis
    proof (cases "calculateConfidence r e c1")
      case (Inl exn)
      with hit calculateConfidence_throws_same [OF Inl, of c2] show ?thesis
        by (simp add: collectMatches_score_throw)
    next
      case x1: (Inr x1)
      show ?thesis
      proof (cases "calculateConfidence r e c2")
        case (Inl exn)
        with calculateConfidence_throws_same [OF Inl, of c1] x1 show ?thesis by simp
      next
        case x2: (Inr x2)
        have "map rule (acc1 @ [\<lparr> rule = r, error = e, confidence = x1 \<rparr>]) =
              map rule (acc2 @ [\<lparr> rule = r, error = e, confidence = x2 \<rparr>])"
          using Cons.prems by simp
        from Cons.IH [OF this] hit x1 x2 show ?thesis
          by (simp add: collectMatches_push)
      qed
    qed
  qed
qed

text \<open>
  Claim C7. For every error and any two contexts (either may be absent), the loop of
  \<open>findMatch\<close> records the same candidate rules, in the same order, or ends with an
  exception under both: the context changes at most the confidence of a candidate.
\<close>

theorem candidates_independent_of_context:
  "map_sum id (map rule) (collectMatches (rules this) e c1 []) =
   map_sum id (map rule) (collectMatches (rules this) e c2 [])"
  by (rule collectMatches_context) simp

theorem candidates_independent_of_context_witness:
  "map_sum id (map rule) (collectMatches (rules (new_RuleEngine [])) typeError_map
     (Some react_browser) []) = Inr [undefined_property]"
  using candidates_independent_of_context [of "new_RuleEngine []" typeError_map "Some react_browser" None]
  by (simp add: new_RuleEngine_def collect_typeError_map)

subsection \<open>C5: an error without message\<close>

lemma collectMatches_append:
  "collectMatches (xs @ ys) e context acc =
     (case collectMatches xs e context acc of
        Inl exn \<Rightarrow> Inl exn
      | Inr ms \<Rightarrow> collectMatches ys e context ms)"
proof (induction xs arbitrary: acc)
  case Nil
  then show ?case by simp
next
  case (Cons r xs)
  show ?case
  proof (cases r e rule: match_cases)
    case (throw exn)
    then show ?thesis by (simp add: collectMatches_throw)
  next
    case skip
    with Cons show ?thesis by (simp add: collectMatches_skip)
  next
    case hit
    show ?thesis
    proof (cases "calculateConfidence r e context")
      case (Inl exn)
      with hit show ?thesis by (simp add: collectMatches_score_throw)
    next
      case (Inr x)
      with hit Cons show ?thesis by (simp add: collectMatches_push)
    qed
  qed
qed

lemma collectMatches_returns:
  assumes "list_all (\<lambda>p. \<not> isl (match p e)) rs" and "message e = Some msg"
  shows "\<exists>ms. collectMatches rs e context acc = Inr ms"
  using assms(1)
proof (induction rs arbitrary: acc)
  case Nil
  then show ?case by simp
next
  case (Cons r rs)
  then have tl: "list_all (\<lambda>p. \<not> isl (match p e)) rs" and hd: "\<not> isl (match r e)"
    by simp_all
  show ?case
  proof (cases r e rule: match_cases)
    case (throw exn)
    with hd show ?thesis by simp
  next
    case skip
    with Cons.IH [OF tl] show ?thesis by (simp add: collectMatches_skip)
  next
    case hit
    from calculateConfidence_returns [OF assms(2)]
    obtain x where "calculateConfidence r e context = Inr x" by blast
    with hit Cons.IH [OF tl] show ?thesis by (simp add: collectMatches_push)
  qed
qed

lemma match_missing_message: "message e = None \<Longrightarrow> match undefined_property e = Inl TypeError"
  by (simp add: undefined_property_def on_message_def)

lemma findMatch_missing_message:
  assumes "message e = None" and "rules this = coreRules @ extra"
  shows "findMatch this e context = Inl TypeError"
proof -
  have "coreRules @ extra = undefined_property # (tl coreRules @ extra)"
    by (simp add: coreRules_def)
  with assms(2) have "collectMatches (rules this) e context [] = Inl TypeError"
    by (simp add: collectMatches_throw [OF match_missing_message [OF assms(1)]])
  then show ?thesis by (simp add: findMatch_def)
qed

lemma match_empty_message:
  "list_all (\<lambda>r. match r empty_message = Inr False) coreRules"
  by (simp add: coreRules_def coreRule_defs on_message_def empty_message_def)

text \<open>
  Claim C5, as amended. For an error-like input whose \<open>message\<close> field is missing, the
  engine does not put the empty string in its place: confidence scoring throws a
  \<open>TypeError\<close> for every rule and context, and \<open>findMatch\<close> on an engine built
  by the constructor, also after \<open>addRules\<close>, propagates the \<open>TypeError\<close>
  thrown by the first predicate of the catalog.
\<close>

theorem missing_message_throws:
  assumes "message e = None"
  shows "calculateConfidence r e context = Inl TypeError \<and>
         findMatch (new_RuleEngine customRules) e context = Inl TypeError \<and>
         findMatch (addRules (new_RuleEngine customRules) extra) e context = Inl TypeError"
  using assms
  by (simp add: calculateConfidence_missing_message findMatch_missing_message
      new_RuleEngine_def addRules_def)

theorem missing_message_throws_witness:
  "message no_message = None \<and>
   calculateConfidence quota_rule no_message (Some react_browser) = Inl TypeError \<and>
   findMatch (new_RuleEngine [quota_rule]) no_message (Some react_browser) = Inl TypeError"
proof -
  have m: "message no_message = None" by (simp add: no_message_def)
  from missing_message_throws [OF m, of quota_rule "Some react_browser" "[quota_rule]" "[]"] m
  show ?thesis by simp
qed

text \<open>
  The claim as stated asks for the behaviour of the empty message: with the empty message the
  shipped catalog gives "no match", with the missing message \<open>findMatch\<close> throws.
\<close>

theorem missing_message_counterexample:
  "findMatch (new_RuleEngine []) no_message None = Inl TypeError \<and>
   findMatch (new_RuleEngine []) empty_message None = Inr None"
proof -
  have "findMatch (new_RuleEngine []) no_message None = Inl TypeError"
    by (rule findMatch_missing_message) (simp_all add: no_message_def new_RuleEngine_def)
  moreover have "findMatch (new_RuleEngine []) empty_message None = Inr None"
    by (simp add: findMatch_def new_RuleEngine_def collectMatches_none [OF match_empty_message])
  ultimately show ?thesis by simp
qed


subsection \<open>C4: a predicate that throws\<close>

lemma match_quota_exceeded:
  "list_all (\<lambda>r. match r quota_exceeded = Inr False) coreRules"
  "match quota_rule quota_exceeded = Inr True"
  "match faulty_rule quota_exceeded = Inl (Thrown ''predicate failed'')"
  by (simp_all add: coreRules_def coreRule_defs on_message_def quota_exceeded_def
      quota_rule_def faulty_rule_def)

lemma list_all_returns:
  "list_all (\<lambda>r. match r e = Inr False) rs \<Longrightarrow> list_all (\<lambda>p. \<not> isl (match p e)) rs"
  by (induction rs) simp_all

text \<open>
  Claim C4, as amended. If the predicate of a rule throws, no predicate of an earlier rule
  throws and the error has a message, then \<open>findMatch\<close> propagates that exception,
  whatever the rules after it are: they are not evaluated, and no match is returned.
\<close>

theorem predicate_fault_propagates:
  assumes "rules this = pre @ r # post"
    and "list_all (\<lambda>p. \<not> isl (match p e)) pre"
    and "message e = Some msg"
    and "match r e = Inl exn"
  shows "findMatch this e context = Inl exn"
proof -
  from collectMatches_returns [OF assms(2,3)]
  obtain ms where "collectMatches pre e context [] = Inr ms" by blast
  with assms(1,4) have "collectMatches (rules this) e context [] = Inl exn"
    by (simp add: collectMatches_append collectMatches_throw)
  then show ?thesis by (simp add: findMatch_def)
qed

theorem predicate_fault_propagates_witness:
  "findMatch (new_RuleEngine [faulty_rule, quota_rule]) quota_exceeded (Some react_browser) =
     Inl (Thrown ''predicate failed'')"
proof -
  have rs: "rules (new_RuleEngine [faulty_rule, quota_rule]) =
      coreRules @ faulty_rule # [quota_rule]"
    by (simp add: new_RuleEngine_def)
  have msg: "message quota_exceeded = Some ''quota exceeded''"
    by (simp add: quota_exceeded_def)
  show ?thesis
    by (rule predicate_fault_propagates
        [OF rs list_all_returns [OF match_quota_exceeded(1)] msg match_quota_exceeded(3)])
qed

text \<open>
  The claim as stated asks for the best match among the rules that do not throw. Here the
  second custom rule matches the error and does not throw, and \<open>findMatch\<close> throws.
\<close>

theorem predicate_fault_counterexample:
  "findMatch (new_RuleEngine [faulty_rule, quota_rule]) quota_exceeded None =
     Inl (Thrown ''predicate failed'') \<and>
   match quota_rule quota_exceeded = Inr True"
proof -
  have "collectMatches (coreRules @ [faulty_rule, quota_rule]) quota_exceeded None [] =
      Inl (Thrown ''predicate failed'')"
    by (simp add: collectMatches_append collectMatches_none [OF match_quota_exceeded(1)]
        collectMatches_throw [OF match_quota_exceeded(3)])
  then show ?thesis
    by (simp add: findMatch_def new_RuleEngine_def match_quota_exceeded(2))
qed

subsection \<open>C8: rules added later\<close>

lemma array_sort_single: "array_sort cmp [x] = [x]"
  by (simp add: array_sort_def)

lemma findMatch_only:
  assumes "rules this = pre @ r # post"
    and "list_all (\<lambda>p. match p e = Inr False) (pre @ post)"
    and "match r e = Inr True"
    and "calculateConfidence r e context = Inr x"
  shows "findMatch this e context = Inr (Some \<lparr> rule = r, error = e, confidence = x \<rparr>)"
proof -
  from assms(2) have pre: "list_all (\<lambda>p. match p e = Inr False) pre"
    and post: "list_all (\<lambda>p. match p e = Inr False) post"
    by simp_all
  have "collectMatches (rules this) e context [] =
      Inr [\<lparr> rule = r, error = e, confidence = x \<rparr>]"
    by (simp add: assms(1) collectMatches_append collectMatches_none [OF pre]
        collectMatches_push [OF assms(3,4)] collectMatches_none [OF post])
  then show ?thesis
    by (simp add: findMatch_def array_sort_single)
qed

lemma score_quota_exceeded:
  "calculateConfidence quota_rule quota_exceeded None = Inr (1 / 2)"
  by code_simp

text \<open>
  Claim C8. \<open>addRules\<close> puts the given rules, in their order, after the current
  rules, which stay as they were; and if afterwards an error matches one of the added rules
  and no other rule, old or added, then \<open>findMatch\<close> returns a match of that rule.
\<close>

theorem addRules_then_findMatch:
  "rules (addRules this added) = rules this @ added \<and>
   (list_all (\<lambda>p. match p e = Inr False) (rules this) \<and>
    added = pre @ r # post \<and>
    list_all (\<lambda>p. match p e = Inr False) (pre @ post) \<and>
    match r e = Inr True \<and> message e = Some msg \<longrightarrow>
    (\<exists>x. calculateConfidence r e context = Inr x \<and>
         findMatch (addRules this added) e context =
           Inr (Some \<lparr> rule = r, error = e, confidence = x \<rparr>)))"
proof (intro conjI impI)
  show "rules (addRules this added) = rules this @ added"
    by (simp add: addRules_def)
next
  assume a: "list_all (\<lambda>p. match p e = Inr False) (rules this) \<and>
    added = pre @ r # post \<and>
    list_all (\<lambda>p. match p e = Inr False) (pre @ post) \<and>
    match r e = Inr True \<and> message e = Some msg"
  then obtain x where x: "calculateConfidence r e context = Inr x"
    using calculateConfidence_returns by blast
  from a have "rules (addRules this added) = (rules this @ pre) @ r # post"
    by (simp add: addRules_def)
  moreover from a have "list_all (\<lambda>p. match p e = Inr False) ((rules this @ pre) @ post)"
    by simp
  moreover from a have "match r e = Inr True"
    by simp
  ultimately have "findMatch (addRules this added) e context =
      Inr (Some \<lparr> rule = r, error = e, confidence = x \<rparr>)"
    using x by (rule findMatch_only)
  with x show "\<exists>x. calculateConfidence r e context = Inr x \<and>
         findMatch (addRules this added) e context =
           Inr (Some \<lparr> rule = r, error = e, confidence = x \<rparr>)"
    by blast
qed

theorem addRules_then_findMatch_witness:
  "rules (addRules (new_RuleEngine []) [quota_rule]) = coreRules @ [quota_rule] \<and>
   findMatch (addRules (new_RuleEngine []) [quota_rule]) quota_exceeded None =
     Inr (Some \<lparr> rule = quota_rule, error = quota_exceeded, confidence = 1 / 2 \<rparr>)"
proof -
  have old: "list_all (\<lambda>p. match p quota_exceeded = Inr False) (rules (new_RuleEngine []))"
    by (simp add: new_RuleEngine_def match_quota_exceeded(1))
  have msg: "message quota_exceeded = Some ''quota exceeded''"
    by (simp add: quota_exceeded_def)
  have "list_all (\<lambda>p. match p quota_exceeded = Inr False) (rules (new_RuleEngine [])) \<and>
    [quota_rule] = [] @ quota_rule # [] \<and>
    list_all (\<lambda>p. match p quota_exceeded = Inr False) ([] @ []) \<and>
    match quota_rule quota_exceeded = Inr True \<and> message quota_exceeded = Some ''quota exceeded''"
    using old msg match_quota_exceeded(2) by simp
  with addRules_then_findMatch [of "new_RuleEngine []" "[quota_rule]" quota_exceeded "[]"
      quota_rule "[]" "''quota exceeded''" None]
  obtain x where app: "rules (addRules (new_RuleEngine []) [quota_rule]) =
      rules (new_RuleEngine []) @ [quota_rule]"
    and x: "calculateConfidence quota_rule quota_exceeded None = Inr x"
    and found: "findMatch (addRules (new_RuleEngine []) [quota_rule]) quota_exceeded None =
      Inr (Some \<lparr> rule = quota_rule, error = quota_exceeded, confidence = x \<rparr>)"
    by blast
  from x score_quota_exceeded have "Inr x = (Inr (1 / 2) :: js_exception + rat)"
    by (rule trans [OF sym])
  then have "x = 1 / 2"
    by (simp only: sum.inject)
  with app found show ?thesis
    by (simp add: new_RuleEngine_def)
qed

subsection \<open>C1: the best match and the tie-break\<close>

lemma collectMatches_closed:
  assumes "list_all (\<lambda>p. \<not> isl (match p e)) rs" and "message e = Some msg"
  shows "collectMatches rs e context acc =
     Inr (acc @ map (\<lambda>r. \<lparr> rule = r, error = e,
                            confidence = projr (calculateConfidence r e context) \<rparr>)
                 (filter (\<lambda>r. match r e = Inr True) rs))"
  using assms(1)
proof (induction rs arbitrary: acc)
  case Nil
  then show ?case by simp
next
  case (Cons r rs)
  then have tl: "list_all (\<lambda>p. \<not> isl (match p e)) rs" and hd: "\<not> isl (match r e)"
    by simp_all
  show ?case
  proof (cases r e rule: match_cases)
    case (throw exn)
    with hd show ?thesis by simp
  next
    case skip
    with Cons.IH [OF tl] show ?thesis by (simp add: collectMatches_skip)
  next
    case hit
    from calculateConfidence_returns [OF assms(2)]
    obtain x where x: "calculateConfidence r e context = Inr x" by blast
    with hit Cons.IH [OF tl] show ?thesis by (simp add: collectMatches_push)
  qed
qed

lemma array_sort_Cons: "array_sort cmp (x # xs) = insert_sorted cmp x (array_sort cmp xs)"
  by (simp add: array_sort_def)

lemma array_sort_Nil: "array_sort cmp [] = []"
  by (simp add: array_sort_def)

lemma array_sort_eq_Nil: "array_sort cmp xs = [] \<longleftrightarrow> xs = []"
  using set_array_sort [of cmp xs] by (metis set_empty)

lemma best_first:
  assumes "filter P rs \<noteq> []"
  shows "\<exists>pre r post. rs = pre @ r # post \<and> P r \<and>
           hd (array_sort (\<lambda>a b. f b - f a) (map g (filter P rs))) = g r \<and>
           (\<forall>p\<in>set pre. P p \<longrightarrow> f (g p) < f (g r)) \<and>
           (\<forall>p\<in>set post. P p \<longrightarrow> f (g p) \<le> f (g r))"
  using assms
proof (induction rs)
  case Nil
  then show ?case by simp
next
  case (Cons x xs)
  let ?cmp = "\<lambda>a b. f b - f a"
  let ?sorted = "array_sort ?cmp (map g (filter P xs))"
  show ?case
  proof (cases "P x")
    case False
    with Cons.prems have "filter P xs \<noteq> []" by simp
    from Cons.IH [OF this] obtain pre r post where
      s: "xs = pre @ r # post" "P r" "hd ?sorted = g r"
         "\<forall>p\<in>set pre. P p \<longrightarrow> f (g p) < f (g r)"
         "\<forall>p\<in>set post. P p \<longrightarrow> f (g p) \<le> f (g r)"
      by blast
    from s False have "x # xs = (x # pre) @ r # post \<and> P r \<and>
        hd (array_sort ?cmp (map g (filter P (x # xs)))) = g r \<and>
        (\<forall>p\<in>set (x # pre). P p \<longrightarrow> f (g p) < f (g r)) \<and>
        (\<forall>p\<in>set post. P p \<longrightarrow> f (g p) \<le> f (g r))"
      by simp
    then show ?thesis by blast
  next
    case True
    then have sort: "array_sort ?cmp (map g (filter P (x # xs))) = insert_sorted ?cmp (g x) ?sorted"
      by (simp add: array_sort_Cons)
    show ?thesis
    proof (cases "filter P xs = []")
      case empty: True
      then have "\<forall>p\<in>set xs. \<not> P p"
        by (simp add: filter_empty_conv)
      with True sort empty have "x # xs = [] @ x # xs \<and> P x \<and>
          hd (array_sort ?cmp (map g (filter P (x # xs)))) = g x \<and>
          (\<forall>p\<in>set []. P p \<longrightarrow> f (g p) < f (g x)) \<and>
          (\<forall>p\<in>set xs. P p \<longrightarrow> f (g p) \<le> f (g x))"
        by (simp add: array_sort_Nil)
      then show ?thesis by blast
    next
      case nonempty: False
      from Cons.IH [OF this] obtain pre r post where
        s: "xs = pre @ r # post" "P r" "hd ?sorted = g r"
           "\<forall>p\<in>set pre. P p \<longrightarrow> f (g p) < f (g r)"
           "\<forall>p\<in>set post. P p \<longrightarrow> f (g p) \<le> f (g r)"
        by blast
      from nonempty have "?sorted \<noteq> []"
        by (simp add: array_sort_eq_Nil)
      with s(3) obtain t where t: "?sorted = g r # t"
        by (cases ?sorted) simp_all
      show ?thesis
      proof (cases "f (g r) \<le> f (g x)")
        case le: True
        with sort t have "hd (array_sort ?cmp (map g (filter P (x # xs)))) = g x"
          by simp
        moreover from s le have "\<forall>p\<in>set xs. P p \<longrightarrow> f (g p) \<le> f (g x)"
          by auto
        ultimately have "x # xs = [] @ x # xs \<and> P x \<and>
            hd (array_sort ?cmp (map g (filter P (x # xs)))) = g x \<and>
            (\<forall>p\<in>set []. P p \<longrightarrow> f (g p) < f (g x)) \<and>
            (\<forall>p\<in>set xs. P p \<longrightarrow> f (g p) \<le> f (g x))"
          using True by simp
        then show ?thesis by blast
      next
        case gt: False
        with sort t have "hd (array_sort ?cmp (map g (filter P (x # xs)))) = g r"
          by simp
        with s gt True have "x # xs = (x # pre) @ r # post \<and> P r \<and>
            hd (array_sort ?cmp (map g (filter P (x # xs)))) = g r \<and>
            (\<forall>p\<in>set (x # pre). P p \<longrightarrow> f (g p) < f (g r)) \<and>
            (\<forall>p\<in>set post. P p \<longrightarrow> f (g p) \<le> f (g r))"
          by simp
        then show ?thesis by blast
      qed
    qed
  qed
qed


lemma by_confidence_eq: "by_confidence = (\<lambda>a b. confidence b - confidence a)"
  by (intro ext) (simp add: by_confidence_def)

lemma match_exceeded_rule: "match exceeded_rule quota_exceeded = Inr True"
  by (simp add: exceeded_rule_def on_message_def quota_exceeded_def)

lemma score_exceeded_rule:
  "calculateConfidence exceeded_rule quota_exceeded None = Inr (1 / 2)"
  by code_simp

lemma last_occurrence:
  assumes "xs @ [r] = pre @ r # post" and "r \<notin> set xs"
  shows "pre = xs"
proof (cases post rule: rev_cases)
  case Nil
  with assms(1) show ?thesis by simp
next
  case (snoc ps z)
  with assms(1) have "xs @ [r] = (pre @ r # ps) @ [z]" by simp
  then have "xs = pre @ r # ps" by (simp only: append1_eq_conv)
  with assms(2) show ?thesis by simp
qed


lemma tie_rules:
  "rules (new_RuleEngine [quota_rule, exceeded_rule]) =
     (coreRules @ [quota_rule]) @ [exceeded_rule]"
  by (simp add: new_RuleEngine_def)

lemma tie_core_skip: "\<forall>p\<in>set coreRules. match p quota_exceeded = Inr False"
  using match_quota_exceeded(1) by (simp add: list_all_iff)

lemma tie_returns:
  "list_all (\<lambda>p. \<not> isl (match p quota_exceeded))
     (rules (new_RuleEngine [quota_rule, exceeded_rule]))"
  using list_all_returns [OF match_quota_exceeded(1)]
  by (simp add: tie_rules match_quota_exceeded(2) match_exceeded_rule)

lemma tie_some_match:
  "\<not> (\<forall>r\<in>set (rules (new_RuleEngine [quota_rule, exceeded_rule])).
        match r quota_exceeded \<noteq> Inr True)"
  by (simp add: tie_rules match_quota_exceeded(2))


lemma quota_exceeded_message: "message quota_exceeded = Some ''quota exceeded''"
  by (simp add: quota_exceeded_def)

text \<open>
  Claim C1. For an error with a message and rules whose predicates do not throw,
  \<open>findMatch\<close> returns \<open>null\<close> exactly when no predicate returns true.
  Otherwise it returns the candidate of a rule \<open>r\<close> at a place of the rule list where
  every matching rule before it has a strictly smaller confidence and every matching rule
  after it has a confidence at most as large: the greatest confidence, and among equal
  confidences the earliest rule.
\<close>

theorem findMatch_best:
  assumes "list_all (\<lambda>p. \<not> isl (match p e)) (rules this)" and "message e = Some msg"
  shows "((findMatch this e context = Inr None) = (\<forall>r\<in>set (rules this). match r e \<noteq> Inr True)) \<and>
         ((\<forall>r\<in>set (rules this). match r e \<noteq> Inr True) \<or>
          (\<exists>pre r post x.
             rules this = pre @ r # post \<and> match r e = Inr True \<and>
             calculateConfidence r e context = Inr x \<and>
             findMatch this e context = Inr (Some \<lparr> rule = r, error = e, confidence = x \<rparr>) \<and>
             (\<forall>p\<in>set pre. match p e = Inr True \<longrightarrow>
                (\<exists>y. calculateConfidence p e context = Inr y \<and> y < x)) \<and>
             (\<forall>p\<in>set post. match p e = Inr True \<longrightarrow>
                (\<exists>y. calculateConfidence p e context = Inr y \<and> y \<le> x))))"
proof -
  define P where "P = (\<lambda>r :: ErrorRule. match r e = Inr True)"
  define score where "score = (\<lambda>r :: ErrorRule. projr (calculateConfidence r e context))"
  define g where "g = (\<lambda>r. \<lparr> rule = r, error = e, confidence = score r \<rparr>)"
  have score: "calculateConfidence r e context = Inr (score r)" for r
    using calculateConfidence_returns [OF assms(2), of r "context"] by (auto simp: score_def)
  have collect: "collectMatches (rules this) e context [] = Inr (map g (filter P (rules this)))"
    using collectMatches_closed [OF assms, of "context" "[]"] by (simp add: g_def P_def score_def)
  have none: "(filter P (rules this) = []) = (\<forall>r\<in>set (rules this). match r e \<noteq> Inr True)"
    by (simp add: filter_empty_conv P_def)
  show ?thesis
  proof (cases "filter P (rules this) = []")
    case True
    with collect have "findMatch this e context = Inr None"
      by (simp add: findMatch_def)
    with True none show ?thesis by simp
  next
    case False
    from best_first [OF False, of confidence g] obtain pre r post where
      s: "rules this = pre @ r # post" "P r"
         "hd (array_sort by_confidence (map g (filter P (rules this)))) = g r"
         "\<forall>p\<in>set pre. P p \<longrightarrow> confidence (g p) < confidence (g r)"
         "\<forall>p\<in>set post. P p \<longrightarrow> confidence (g p) \<le> confidence (g r)"
      unfolding by_confidence_eq by blast
    from False have "array_sort by_confidence (map g (filter P (rules this))) \<noteq> []"
      by (simp add: array_sort_eq_Nil)
    with s(3) obtain t where
      "array_sort by_confidence (map g (filter P (rules this))) = g r # t"
      by (cases "array_sort by_confidence (map g (filter P (rules this)))") simp_all
    with collect False have found: "findMatch this e context = Inr (Some (g r))"
      by (simp add: findMatch_def)
    then have not_none: "findMatch this e context \<noteq> Inr None"
      by simp
    have before: "\<forall>p\<in>set pre. match p e = Inr True \<longrightarrow>
        (\<exists>y. calculateConfidence p e context = Inr y \<and> y < score r)"
      using s(4) score by (simp add: P_def g_def)
    have after: "\<forall>p\<in>set post. match p e = Inr True \<longrightarrow>
        (\<exists>y. calculateConfidence p e context = Inr y \<and> y \<le> score r)"
      using s(5) score by (simp add: P_def g_def)
    from s(1,2) found score [of r] before after
    have "\<exists>pre r post x.
             rules this = pre @ r # post \<and> match r e = Inr True \<and>
             calculateConfidence r e context = Inr x \<and>
             findMatch this e context = Inr (Some \<lparr> rule = r, error = e, confidence = x \<rparr>) \<and>
             (\<forall>p\<in>set pre. match p e = Inr True \<longrightarrow>
                (\<exists>y. calculateConfidence p e context = Inr y \<and> y < x)) \<and>
             (\<forall>p\<in>set post. match p e = Inr True \<longrightarrow>
                (\<exists>y. calculateConfidence p e context = Inr y \<and> y \<le> x))"
      unfolding P_def g_def by blast
    with not_none none False show ?thesis by simp
  qed
qed


text \<open>
  Two custom rules match the same error with the same confidence 0.5; the statement above
  leaves no choice but the first of them.
\<close>

theorem findMatch_best_witness:
  "findMatch (new_RuleEngine [quota_rule, exceeded_rule]) quota_exceeded None =
     Inr (Some \<lparr> rule = quota_rule, error = quota_exceeded, confidence = 1 / 2 \<rparr>) \<and>
   match exceeded_rule quota_exceeded = Inr True \<and>
   calculateConfidence exceeded_rule quota_exceeded None = Inr (1 / 2)"
proof (rule disjE [OF conjunct2 [OF findMatch_best [OF tie_returns quota_exceeded_message, of None]]])
  assume "\<forall>r\<in>set (rules (new_RuleEngine [quota_rule, exceeded_rule])).
     match r quota_exceeded \<noteq> Inr True"
  with tie_some_match show ?thesis by (rule notE)
next
  assume "\<exists>pre r post x.
     rules (new_RuleEngine [quota_rule, exceeded_rule]) = pre @ r # post \<and>
     match r quota_exceeded = Inr True \<and>
     calculateConfidence r quota_exceeded None = Inr x \<and>
     findMatch (new_RuleEngine [quota_rule, exceeded_rule]) quota_exceeded None =
       Inr (Some \<lparr> rule = r, error = quota_exceeded, confidence = x \<rparr>) \<and>
     (\<forall>p\<in>set pre. match p quota_exceeded = Inr True \<longrightarrow>
        (\<exists>y. calculateConfidence p quota_exceeded None = Inr y \<and> y < x)) \<and>
     (\<forall>p\<in>set post. match p quota_exceeded = Inr True \<longrightarrow>
        (\<exists>y. calculateConfidence p quota_exceeded None = Inr y \<and> y \<le> x))"
  then obtain pre r post x where
    split: "rules (new_RuleEngine [quota_rule, exceeded_rule]) = pre @ r # post"
    and r: "match r quota_exceeded = Inr True"
    and x: "calculateConfidence r quota_exceeded None = Inr x"
    and found: "findMatch (new_RuleEngine [quota_rule, exceeded_rule]) quota_exceeded None =
        Inr (Some \<lparr> rule = r, error = quota_exceeded, confidence = x \<rparr>)"
    and before: "\<forall>p\<in>set pre. match p quota_exceeded = Inr True \<longrightarrow>
        (\<exists>y. calculateConfidence p quota_exceeded None = Inr y \<and> y < x)"
    by (elim exE conjE) (rule that)
  from split have "r \<in> set (rules (new_RuleEngine [quota_rule, exceeded_rule]))"
    by simp
  then have "r = quota_rule \<or> r = exceeded_rule \<or> r \<in> set coreRules"
    by (simp add: tie_rules)
  moreover have "r \<notin> set coreRules"
  proof
    assume "r \<in> set coreRules"
    with tie_core_skip have "match r quota_exceeded = Inr False" by (rule bspec)
    with r show False by simp
  qed
  ultimately have cases: "r = quota_rule \<or> r = exceeded_rule"
    by simp
  have "r \<noteq> exceeded_rule"
  proof
    assume e: "r = exceeded_rule"
    from x have half: "x = 1 / 2"
      by (simp only: e score_exceeded_rule sum.inject)
    have "rule_id exceeded_rule \<noteq> rule_id quota_rule"
      by (simp add: exceeded_rule_def quota_rule_def)
    then have distinct: "exceeded_rule \<noteq> quota_rule"
      by (rule contrapos_nn) (rule arg_cong)
    have "exceeded_rule \<notin> set coreRules"
    proof
      assume "exceeded_rule \<in> set coreRules"
      with tie_core_skip have "match exceeded_rule quota_exceeded = Inr False" by (rule bspec)
      with match_exceeded_rule show False by simp
    qed
    with distinct have notin: "exceeded_rule \<notin> set (coreRules @ [quota_rule])"
      by simp
    from split have "(coreRules @ [quota_rule]) @ [exceeded_rule] = pre @ exceeded_rule # post"
      by (simp only: tie_rules e)
    from last_occurrence [OF this notin] have "quota_rule \<in> set pre"
      by simp
    with before have "match quota_rule quota_exceeded = Inr True \<longrightarrow>
        (\<exists>y. calculateConfidence quota_rule quota_exceeded None = Inr y \<and> y < x)"
      by (rule bspec)
    with match_quota_exceeded(2) obtain y where
      "calculateConfidence quota_rule quota_exceeded None = Inr y" and "y < x"
      by blast
    then show False
      by (simp add: score_quota_exceeded half)
  qed
  with cases have q: "r = quota_rule" by simp
  from x have "x = 1 / 2"
    by (simp only: q score_quota_exceeded sum.inject)
  with found q match_exceeded_rule score_exceeded_rule show ?thesis
    by simp
qed

subsection \<open>C2: the scoring algorithm\<close>

lemma framework_condition:
  "(truthy (context_framework context) \<and>
    frameworks_includes r (the (context_framework context))) =
   framework_bonus_amended r context"
  by (simp add: truthy_def context_framework_def framework_bonus_amended_def
      split: option.splits)

lemma name_condition:
  "(truthy (name e) \<and> str_includes (toLowerCase (rule_name r)) (toLowerCase (the (name e)))) =
   name_bonus r (name e)"
  by (simp add: truthy_def name_bonus_def split: option.splits)

lemma severity_steps:
  "add_if (severity r = Some High) (round_double (5 / 100))
     (add_if (severity r = Some Critical) (round_double (1 / 10)) acc) =
   severity_bonus r acc"
  by (simp add: add_if_def severity_bonus_def split: option.splits severity.splits)

lemma score_react_child:
  "spec_confidence (framework_bonus_amended react_children (Some react_browser))
     react_children ''Objects are not valid as a React child'' (Some ''Error'') = 3 / 4"
  by code_simp

lemma score_blank_framework:
  "calculateConfidence blank_framework_rule quota_exceeded (Some blank_framework) = Inr (1 / 2)"
  by code_simp

lemma stated_blank_framework:
  "spec_confidence (framework_bonus_stated blank_framework_rule (Some blank_framework))
     blank_framework_rule ''quota exceeded'' (Some ''Error'') = round_double (7 / 10)"
  by code_simp

lemma double_0_7: "round_double (7 / 10) = 3152519739159347 / 4503599627370496"
  by code_simp

text \<open>
  Claim C2, as amended. For an error with a message, the confidence computed for a rule is
  0.5, plus 0.3 if the lower-cased message contains the lower-cased title, plus 0.2 if
  \<open>context.framework\<close> is set, is not the empty string and is a member of the rule's
  frameworks, plus 0.1 if the error's name is not empty and the lower-cased name of the rule
  contains it lower-cased, plus 0.1 if the severity is critical or 0.05 if it is high, the sum
  clamped to at most 1.0.
\<close>

theorem calculateConfidence_scoring:
  assumes "message e = Some msg"
  shows "calculateConfidence r e context =
         Inr (spec_confidence (framework_bonus_amended r context) r msg (name e))"
proof -
  have "calculateConfidence r e context =
      Inr (min
        (add_if (severity r = Some High) (round_double (5 / 100))
          (add_if (severity r = Some Critical) (round_double (1 / 10))
            (add_if (truthy (name e) \<and>
                     str_includes (toLowerCase (rule_name r)) (toLowerCase (the (name e))))
               (round_double (1 / 10))
               (add_if (truthy (context_framework context) \<and>
                        frameworks_includes r (the (context_framework context)))
                  (round_double (2 / 10))
                  (add_if (str_includes (toLowerCase msg) (toLowerCase (title r)))
                     (round_double (3 / 10)) (round_double (1 / 2))))))) 1)"
    using assms by (simp only: calculateConfidence_def Let_def option.case)
  also have "\<dots> = Inr (spec_confidence (framework_bonus_amended r context) r msg (name e))"
    unfolding severity_steps framework_condition name_condition
    by (simp add: spec_confidence_def plus_if_def add_if_def title_bonus_def min.commute)
  finally show ?thesis .
qed

theorem calculateConfidence_scoring_witness:
  "message react_child_error = Some ''Objects are not valid as a React child'' \<and>
   calculateConfidence react_children react_child_error (Some react_browser) = Inr (3 / 4)"
proof -
  have msg: "message react_child_error = Some ''Objects are not valid as a React child''"
    by (simp add: react_child_error_def)
  have nm: "name react_child_error = Some ''Error''"
    by (simp add: react_child_error_def)
  from calculateConfidence_scoring [OF msg, of react_children "Some react_browser"]
  have "calculateConfidence react_children react_child_error (Some react_browser) = Inr (3 / 4)"
    by (simp only: nm score_react_child)
  with msg show ?thesis by (rule conjI)
qed

text \<open>
  The claim as stated gives the framework bonus whenever \<open>context.framework\<close> is set
  and is a member of the rule's frameworks. The empty string is set and is a member of
  \<open>[""]\<close>, but the source tests \<open>context?.framework &&\<close>, and the empty
  string is false there: the confidence is 0.5, not 0.7.
\<close>

theorem calculateConfidence_scoring_counterexample:
  "calculateConfidence blank_framework_rule quota_exceeded (Some blank_framework) = Inr (1 / 2) \<and>
   spec_confidence (framework_bonus_stated blank_framework_rule (Some blank_framework))
     blank_framework_rule ''quota exceeded'' (Some ''Error'') = round_double (7 / 10) \<and>
   1 / 2 < round_double (7 / 10)"
  unfolding score_blank_framework stated_blank_framework double_0_7 by simp

subsection \<open>C10: prettyTry\<close>

lemma ex_message_explain: "ex_message (explain errorMessage x) = errorMessage"
  by (cases x) (simp add: explain_def)

lemma getErrorExplanation_message:
  assumes "message e = Some msg"
  shows "\<exists>ex. getErrorExplanation e = Inr ex \<and> ex_message ex = msg"
proof (cases "map_of errorMappings msg")
  case (Some x)
  with assms show ?thesis
    by (simp add: getErrorExplanation_def ex_message_explain)
next
  case None
  show ?thesis
  proof (cases "msg \<in> set objectPrototypeKeys")
    case True
    with None assms show ?thesis
      by (simp add: getErrorExplanation_def)
  next
    case False
    with None assms show ?thesis
      by (cases "find (\<lambda>entry. str_includes msg (fst entry)) errorMappings")
        (simp_all add: getErrorExplanation_def ex_message_explain)
  qed
qed

text \<open>
  Claim C10, as amended. If \<open>fn\<close> returns a value \<open>v\<close>, \<open>prettyTry\<close>
  returns \<open>{ success: true, data: v }\<close>. If \<open>fn\<close> throws an \<open>Error\<close>
  whose message is a string, it returns \<open>{ success: false }\<close> with an explanation
  whose message is that string. If \<open>fn\<close> throws a value that is not an
  \<open>Error\<close> and whose string conversion yields a string, it returns
  \<open>{ success: false }\<close> with an explanation whose message is that string.
\<close>

theorem prettyTry_results:
  "(fn () = Returns v \<longrightarrow>
      prettyTry fn = Inr \<lparr> success = True, data = Some v, explained = None \<rparr>) \<and>
   (fn () = Throws (ErrorInstance err) \<and> message err = Some msg \<longrightarrow>
      (\<exists>ex. prettyTry fn = Inr \<lparr> success = False, data = None, explained = Some ex \<rparr> \<and>
            ex_message ex = msg)) \<and>
   (fn () = Throws (NonError (Inr s)) \<longrightarrow>
      (\<exists>ex. prettyTry fn = Inr \<lparr> success = False, data = None, explained = Some ex \<rparr> \<and>
            ex_message ex = s))"
proof (intro conjI impI)
  assume "fn () = Returns v"
  then show "prettyTry fn = Inr \<lparr> success = True, data = Some v, explained = None \<rparr>"
    by (simp add: prettyTry_def)
next
  assume a: "fn () = Throws (ErrorInstance err) \<and> message err = Some msg"
  then obtain ex where "getErrorExplanation err = Inr ex" and "ex_message ex = msg"
    using getErrorExplanation_message by blast
  with a show "\<exists>ex. prettyTry fn = Inr \<lparr> success = False, data = None, explained = Some ex \<rparr> \<and>
            ex_message ex = msg"
    by (simp add: prettyTry_def)
next
  assume "fn () = Throws (NonError (Inr s))"
  then show "\<exists>ex. prettyTry fn = Inr \<lparr> success = False, data = None, explained = Some ex \<rparr> \<and>
            ex_message ex = s"
    by (simp add: prettyTry_def)
qed

theorem prettyTry_results_witness:
  "map_sum id (\<lambda>res. (success res, map_option ex_message (explained res)))
     (prettyTry throws_typeError_map) =
   Inr (False, Some ''Cannot read properties of undefined (reading 'map')'')"
proof -
  have "throws_typeError_map () = Throws (ErrorInstance typeError_map) \<and>
      message typeError_map = Some ''Cannot read properties of undefined (reading 'map')''"
    by (simp add: throws_typeError_map_def typeError_map_def)
  with prettyTry_results [of throws_typeError_map _ typeError_map
      "''Cannot read properties of undefined (reading 'map')''"]
  obtain ex where
    "prettyTry throws_typeError_map = Inr \<lparr> success = False, data = None, explained = Some ex \<rparr>"
    and "ex_message ex = ''Cannot read properties of undefined (reading 'map')''"
    by blast
  then show ?thesis by simp
qed

text \<open>
  The claim as stated says that \<open>prettyTry\<close> never propagates an exception. The
  conversion \<open>String(error)\<close> and the call \<open>errorMessage.includes(key)\<close>
  both stand in the \<open>catch\<close> block, outside any \<open>try\<close>: an exception of
  either leaves \<open>prettyTry\<close>.
\<close>

theorem prettyTry_results_counterexample:
  "prettyTry throws_bare_object = Inl TypeError \<and>
   prettyTry throws_no_message = Inl TypeError"
  by (simp add: prettyTry_def throws_bare_object_def throws_no_message_def
      getErrorExplanation_def no_message_def)

end
